theory Spec2Isabelle
  imports Main
begin

section \<open>The Markdown code generator of yamlresume\<close>

text \<open>
  A shallow embedding of \<^verbatim>\<open>packages/core/src/compiler/codegen/markdown.ts\<close>:
  the dispatcher \<^verbatim>\<open>nodeToMarkdown\<close>, one rendering function per node variant,
  \<^verbatim>\<open>applyMarkToText\<close> and \<^verbatim>\<open>fragmentToMarkdown\<close>.  Strings are character lists,
  template literals are concatenations, \<^verbatim>\<open>Array.map(...).join('')\<close> is
  \<^term>\<open>concat\<close> of a \<^term>\<open>map\<close>, and \<^verbatim>\<open>Array.reduce\<close> is \<^term>\<open>foldl\<close>.
  The generator has no \<^verbatim>\<open>throw\<close> and no loop besides the recursion over the tree,
  so every function of the model is a total function returning a string.
\<close>

subsection \<open>Document model\<close>

text \<open>
  Modelled from the spec: the type declarations of the module \<^verbatim>\<open>@/compiler/ast\<close>
  (\<^verbatim>\<open>Node\<close>, \<^verbatim>\<open>Mark\<close>, \<^verbatim>\<open>Fragment\<close>) are imported by the generator but are not among
  the source files.  The shapes below are the ones the generator reads
  (\<^verbatim>\<open>node.type\<close>, \<^verbatim>\<open>node.content\<close>, \<^verbatim>\<open>node.attrs?.start\<close>, \<^verbatim>\<open>node.text\<close>,
  \<^verbatim>\<open>node.marks\<close>, \<^verbatim>\<open>mark.type\<close>, \<^verbatim>\<open>mark.attrs?.href\<close>): an optional field is an
  \<^typ>\<open>'a option\<close>, with \<^term>\<open>None\<close> for \<^verbatim>\<open>undefined\<close>.
\<close>

record link_attrs =
  href :: "string option"

datatype mark = Bold | Italic | Link "link_attrs option"

record ordered_list_attrs =
  start :: "int option"

datatype node =
    BulletList "node list option"
  | Doc "node list option"
  | ListItem "node list option"
  | OrderedList "ordered_list_attrs option" "node list option"
  | Paragraph "node list option"
  | Text string "mark list option"

type_synonym fragment = "node list option"

subsection \<open>String primitives of the language\<close>

text \<open>
  A string is a \<^typ>\<open>string\<close>, read as the bytes of its UTF-8 encoding: the generator only
  concatenates strings and removes newline characters, and the newline is a single
  byte that occurs in no other character's encoding.
\<close>

abbreviation newline :: char where
  "newline \<equiv> CHR 0x0A"

text \<open>
  \<^verbatim>\<open>s.replace(/\n+$/, '')\<close>: the pattern has no \<^verbatim>\<open>g\<close> and no \<^verbatim>\<open>m\<close> flag, so the
  first match from the left is replaced and \<^verbatim>\<open>$\<close> is the end of the input.  A match
  starts at a position holding a newline from which only newlines follow up to the
  end; the match is that whole rest, and it is replaced by the empty string.  Without
  a match the string is returned as it is.
\<close>

fun replace_trailing_newlines :: "string \<Rightarrow> string" where
  "replace_trailing_newlines [] = []"
| "replace_trailing_newlines (c # cs) =
     (if c = newline \<and> list_all (\<lambda>x. x = newline) cs then []
      else c # replace_trailing_newlines cs)"

subsection \<open>Numbers of the language\<close>

text \<open>
  A number of the language is an IEEE 754 double.  The spec makes \<^verbatim>\<open>start\<close> an
  integer and the counter of an ordered list only ever holds integers, so a number is
  modelled by the integer it denotes.  The integers that are numbers are those of
  magnitude up to \<open>2^53\<close> and, beyond, those with at most 53 significant bits; an
  \<^typ>\<open>int\<close> that is none of them is not a value the program can hold.

  \<^verbatim>\<open>currentNumber++\<close> stores the sum of the counter and 1 as a double: the exact sum
  rounded to the nearest double, a tie going to the even significand.  Adding 1 never
  overflows, since the largest doubles are their own nearest double.
\<close>

fun bit_length :: "nat \<Rightarrow> nat" where
  "bit_length n = (if n = 0 then 0 else Suc (bit_length (n div 2)))"

definition round_to_double :: "int \<Rightarrow> int" where
  "round_to_double m =
     (if \<bar>m\<bar> \<le> 2 ^ 53 then m
      else let a = nat \<bar>m\<bar>;
               e = bit_length a - 53;
               q = a div 2 ^ e;
               r = a mod 2 ^ e;
               q' = (if 2 ^ e < 2 * r \<or> (2 * r = 2 ^ e \<and> odd q) then q + 1 else q)
           in sgn m * int (q' * 2 ^ e))"

definition increment :: "int \<Rightarrow> int" where
  "increment n = round_to_double (n + 1)"

text \<open>The decimal numeral of an integer.\<close>

definition digit_char :: "nat \<Rightarrow> char" where
  "digit_char d = ''0123456789'' ! d"

fun decimal_nat :: "nat \<Rightarrow> string" where
  "decimal_nat n =
     (if n < 10 then [digit_char n]
      else decimal_nat (n div 10) @ [digit_char (n mod 10)])"

definition decimal_of_int :: "int \<Rightarrow> string" where
  "decimal_of_int i =
     (if i < 0 then CHR ''-'' # decimal_nat (nat (- i)) else decimal_nat (nat i))"

text \<open>
  The conversion of a number inside a template literal (\<^verbatim>\<open>`${currentNumber}. `\<close>) is
  the language's Number-to-string: for a value \<open>x\<close> it takes digits \<open>s\<close>, as few as
  possible (\<open>k\<close> of them), and a length \<open>n\<close> such that \<open>s \<times> 10^(n - k)\<close> reads back as \<open>x\<close>,
  the closest such to \<open>x\<close> (the even one in a tie), and prints \<open>s\<close> followed by \<open>n - k\<close>
  zeros when \<open>n \<le> 21\<close> and in exponent notation otherwise; a negative value gets a minus
  sign.  Up to \<open>2^53\<close> every integer is a number of its own, so only the integer itself
  reads back as \<open>x\<close> and the result is its decimal numeral.  Beyond, the digits are
  searched for: \<open>closest_candidate x d k\<close> is the \<open>k\<close>-digit number \<open>s\<close> for a \<open>d\<close>-digit
  \<open>x\<close>, when there is one, and \<open>shortest_from\<close> tries \<open>k = 1, 2, \<dots>\<close> in turn.
\<close>

definition closest_candidate :: "nat \<Rightarrow> nat \<Rightarrow> nat \<Rightarrow> nat option" where
  "closest_candidate x d k =
     (let p = 10 ^ (d - k);
          lo = x div p;
          hi = lo + 1;
          lo_reads_x = (round_to_double (int (lo * p)) = int x);
          hi_reads_x = (hi < 10 ^ k \<and> round_to_double (int (hi * p)) = int x)
      in if lo_reads_x \<and> hi_reads_x then
           (if x - lo * p < hi * p - x then Some lo
            else if hi * p - x < x - lo * p then Some hi
            else if even lo then Some lo else Some hi)
         else if lo_reads_x then Some lo
         else if hi_reads_x then Some hi
         else None)"

function shortest_from :: "nat \<Rightarrow> nat \<Rightarrow> nat \<Rightarrow> nat \<times> nat" where
  "shortest_from x d k =
     (if d \<le> k then (d, x)
      else case closest_candidate x d k of
             Some s \<Rightarrow> (k, s)
           | None \<Rightarrow> shortest_from x d (Suc k))"
  by pat_completeness auto

termination
  by (relation "measure (\<lambda>(x, d, k). d - k)") auto

definition number_to_string_large :: "nat \<Rightarrow> string" where
  "number_to_string_large x =
     (let d = length (decimal_nat x);
          (k, s, n) = (if round_to_double (10 ^ d) = int x then (1, 1, d + 1)
                       else case shortest_from x d 1 of (k, s) \<Rightarrow> (k, s, d))
      in if n \<le> 21 then decimal_nat s @ replicate (n - k) (CHR ''0'')
         else case decimal_nat s of
                [] \<Rightarrow> []
              | c # cs \<Rightarrow>
                  (if k = 1 then [c] else c # ''.'' @ cs) @ ''e+'' @ decimal_nat (n - 1))"

definition number_to_string :: "int \<Rightarrow> string" where
  "number_to_string i =
     (if \<bar>i\<bar> \<le> 2 ^ 53 then decimal_of_int i
      else if i < 0 then CHR ''-'' # number_to_string_large (nat (- i))
      else number_to_string_large (nat i))"

subsection \<open>Marks and text nodes\<close>

text \<open>
  The optional \<^verbatim>\<open>context\<close> parameter has the type \<^verbatim>\<open>CodeGenerationContext\<close> of the
  module \<^verbatim>\<open>./interface\<close>, which is not among the source files either; it is a type
  parameter \<^typ>\<open>'ctx\<close> here, and an omitted argument is \<^term>\<open>None\<close>.
\<close>

fun applyMarkToText :: "string \<Rightarrow> mark \<Rightarrow> 'ctx option \<Rightarrow> string" where
  "applyMarkToText text Bold _ = ''**'' @ text @ ''**''"
| "applyMarkToText text Italic _ = ''*'' @ text @ ''*''"
| "applyMarkToText text (Link attrs) _ =
     ''['' @ text @ '']('' @
       (case attrs of
          None \<Rightarrow> ''''
        | Some a \<Rightarrow> (case href a of None \<Rightarrow> '''' | Some h \<Rightarrow> h))
       @ '')''"

definition textNodeToMarkdown :: "string \<Rightarrow> mark list option \<Rightarrow> 'ctx option \<Rightarrow> string" where
  "textNodeToMarkdown text marks context =
     (case marks of
        None \<Rightarrow> text
      | Some ms \<Rightarrow> foldl (\<lambda>text mark. applyMarkToText text mark context) text ms)"

subsection \<open>Dispatch and block rendering\<close>

text \<open>
  The per-variant functions take the fields of their node.  The callback of
  \<^verbatim>\<open>orderedListNodeToMarkdown\<close> increments the captured variable
  \<^verbatim>\<open>currentNumber\<close>; \<open>orderedListItems\<close> is that \<^verbatim>\<open>map\<close> with the counter passed
  along explicitly (\<^verbatim>\<open>currentNumber++\<close> is \<^term>\<open>increment\<close>), and the \<^verbatim>\<open>join('')\<close> is
  the \<^term>\<open>concat\<close> around it.
\<close>

lemma size_node_in_list: "n \<in> set ns \<Longrightarrow> size n \<le> size_list size ns"
  by (induction ns) auto

function (sequential)
    nodeToMarkdown :: "node \<Rightarrow> 'ctx option \<Rightarrow> string"
and bulletListNodeToMarkdown :: "fragment \<Rightarrow> 'ctx option \<Rightarrow> string"
and docNodeToMarkdown :: "fragment \<Rightarrow> 'ctx option \<Rightarrow> string"
and listItemNodeToMarkdown :: "fragment \<Rightarrow> 'ctx option \<Rightarrow> string"
and orderedListNodeToMarkdown ::
      "ordered_list_attrs option \<Rightarrow> fragment \<Rightarrow> 'ctx option \<Rightarrow> string"
and orderedListItems :: "node list \<Rightarrow> int \<Rightarrow> 'ctx option \<Rightarrow> string list"
and paragraphNodeToMarkdown :: "fragment \<Rightarrow> 'ctx option \<Rightarrow> string"
and fragmentToMarkdown :: "fragment \<Rightarrow> 'ctx option \<Rightarrow> string"
where
  "nodeToMarkdown (BulletList content) context = bulletListNodeToMarkdown content context"
| "nodeToMarkdown (Doc content) context = docNodeToMarkdown content context"
| "nodeToMarkdown (ListItem content) context = listItemNodeToMarkdown content context"
| "nodeToMarkdown (OrderedList attrs content) context =
     orderedListNodeToMarkdown attrs content context"
| "nodeToMarkdown (Paragraph content) context = paragraphNodeToMarkdown content context"
| "nodeToMarkdown (Text text marks) context = textNodeToMarkdown text marks context"
| "bulletListNodeToMarkdown content context = fragmentToMarkdown content context"
| "docNodeToMarkdown content context = fragmentToMarkdown content context"
| "listItemNodeToMarkdown content context =
     (let itemContent = fragmentToMarkdown content context;
          cleanContent = replace_trailing_newlines itemContent
      in ''- '' @ cleanContent @ [newline])"
| "orderedListNodeToMarkdown attrs content context =
     (let startNumber =
            (case attrs of
               None \<Rightarrow> 1
             | Some a \<Rightarrow> (case start a of None \<Rightarrow> 1 | Some s \<Rightarrow> s))
      in case content of
           None \<Rightarrow> ''''
         | Some items \<Rightarrow> concat (orderedListItems items startNumber context))"
| "orderedListItems [] currentNumber context = []"
| "orderedListItems (item # rest) currentNumber context =
     (case item of
        ListItem content \<Rightarrow>
          (let itemContent = fragmentToMarkdown content context;
               cleanContent = replace_trailing_newlines itemContent;
               result = number_to_string currentNumber @ ''. '' @ cleanContent @ [newline]
           in result # orderedListItems rest (increment currentNumber) context)
      | _ \<Rightarrow> '''' # orderedListItems rest currentNumber context)"
| "paragraphNodeToMarkdown content context =
     (case content of
        None \<Rightarrow> [newline]
      | Some ns \<Rightarrow>
          if length ns = 0 then [newline]
          else fragmentToMarkdown content context @ [newline, newline])"
| "fragmentToMarkdown None context = ''''"
| "fragmentToMarkdown (Some nodes) context =
     concat (map (\<lambda>node. nodeToMarkdown node context) nodes)"
  by pat_completeness auto

termination
  apply (relation "measure
    (case_sum
      (case_sum
        (case_sum (\<lambda>(n, _). 3 * size n)
                  (\<lambda>(c, _). 3 * size_option (size_list size) c + 1))
        (case_sum (\<lambda>(c, _). 3 * size_option (size_list size) c + 1)
                  (\<lambda>(c, _). 3 * size_option (size_list size) c + 1)))
      (case_sum
        (case_sum (\<lambda>(_, c, _). 3 * size_option (size_list size) c + 2)
                  (\<lambda>(ns, _, _). 3 * size_list size ns + 1))
        (case_sum (\<lambda>(c, _). 3 * size_option (size_list size) c + 1)
                  (\<lambda>(c, _). 3 * size_option (size_list size) c))))")
                   apply simp_all
  apply (drule size_node_in_list)
  apply simp
  done

text \<open>The public entry point, \<^verbatim>\<open>MarkdownCodeGenerator.generate\<close>.\<close>

definition generate :: "node \<Rightarrow> 'ctx option \<Rightarrow> string" where
  "generate node context = nodeToMarkdown node context"

subsection \<open>Notions the statements below use\<close>

text \<open>
  The string left after every trailing newline character is removed, and the length
  of the run of newline characters a string ends with.
\<close>

definition strip_trailing_newlines :: "string \<Rightarrow> string" where
  "strip_trailing_newlines s = rev (dropWhile (\<lambda>c. c = newline) (rev s))"

definition trailing_newlines :: "string \<Rightarrow> nat" where
  "trailing_newlines s = length (takeWhile (\<lambda>c. c = newline) (rev s))"

text \<open>The test \<^verbatim>\<open>item.type === 'listItem'\<close>, and the Fragments of the \<^verbatim>\<open>listItem\<close>
  entries of a list's content, in document order.\<close>

fun isListItem :: "node \<Rightarrow> bool" where
  "isListItem (ListItem _) = True"
| "isListItem _ = False"

fun listItemContents :: "node list \<Rightarrow> fragment list" where
  "listItemContents [] = []"
| "listItemContents (ListItem content # rest) = content # listItemContents rest"
| "listItemContents (_ # rest) = listItemContents rest"

text \<open>The first ordinal of an ordered list: \<^verbatim>\<open>attrs.start\<close> when present, 1 otherwise.\<close>

definition startNumberOf :: "ordered_list_attrs option \<Rightarrow> int" where
  "startNumberOf attrs =
     (case attrs of
        None \<Rightarrow> 1
      | Some a \<Rightarrow> (case start a of None \<Rightarrow> 1 | Some s \<Rightarrow> s))"

section \<open>Properties\<close>

subsection \<open>The regular expression removes the whole trailing run of newlines\<close>

lemma strip_all_newlines:
  "list_all (\<lambda>x. x = newline) s \<Longrightarrow> strip_trailing_newlines s = []"
  unfolding strip_trailing_newlines_def list_all_iff
  by (simp add: dropWhile_eq_Nil_conv)

lemma strip_Cons_keep:
  assumes "\<not> (c = newline \<and> list_all (\<lambda>x. x = newline) cs)"
  shows "strip_trailing_newlines (c # cs) = c # strip_trailing_newlines cs"
proof (cases "\<forall>x\<in>set (rev cs). x = newline")
  case True
  then have "dropWhile (\<lambda>c. c = newline) (rev cs @ [c]) = dropWhile (\<lambda>c. c = newline) [c]"
    by (intro dropWhile_append2) simp
  moreover from True have "dropWhile (\<lambda>c. c = newline) (rev cs) = []"
    by (simp only: dropWhile_eq_Nil_conv)
  moreover from True assms have "c \<noteq> newline"
    by (simp add: list_all_iff)
  ultimately show ?thesis
    by (simp add: strip_trailing_newlines_def)
next
  case False
  then obtain x where "x \<in> set (rev cs)" "\<not> x = newline" by blast
  then have "dropWhile (\<lambda>c. c = newline) (rev cs @ [c]) =
             dropWhile (\<lambda>c. c = newline) (rev cs) @ [c]"
    by (rule dropWhile_append1)
  then show ?thesis
    by (simp add: strip_trailing_newlines_def)
qed

lemma replace_trailing_newlines_eq:
  "replace_trailing_newlines s = strip_trailing_newlines s"
proof (induction s)
  case Nil
  show ?case by (simp add: strip_trailing_newlines_def)
next
  case (Cons c cs)
  show ?case
  proof (cases "c = newline \<and> list_all (\<lambda>x. x = newline) cs")
    case True
    then have "list_all (\<lambda>x. x = newline) (c # cs)" by simp
    from strip_all_newlines [OF this] True show ?thesis by simp
  next
    case False
    from strip_Cons_keep [OF False] False Cons show ?thesis by simp
  qed
qed

lemma trailing_newlines_snoc:
  "trailing_newlines (s @ [newline]) = Suc (trailing_newlines s)"
  by (simp add: trailing_newlines_def)

lemma takeWhile_dropWhile_append:
  assumes "\<not> P x"
  shows "takeWhile P (dropWhile P xs @ x # ys) = []"
proof (cases "dropWhile P xs")
  case Nil
  show ?thesis unfolding Nil using assms by simp
next
  case (Cons y zs)
  then have "\<not> P y" using hd_dropWhile [of P xs] by simp
  with Cons show ?thesis by simp
qed

lemma trailing_newlines_strip:
  assumes "x \<noteq> newline"
  shows "trailing_newlines (p @ [x] @ strip_trailing_newlines s) = 0"
  using takeWhile_dropWhile_append [of "\<lambda>c. c = newline" x "rev s" "rev p"] assms
  by (simp add: trailing_newlines_def strip_trailing_newlines_def)

lemma trailing_newlines_line:
  assumes "x \<noteq> newline"
  shows "trailing_newlines (p @ [x] @ replace_trailing_newlines s @ [newline]) = 1"
proof -
  have "trailing_newlines ((p @ [x] @ strip_trailing_newlines s) @ [newline]) =
        Suc (trailing_newlines (p @ [x] @ strip_trailing_newlines s))"
    by (rule trailing_newlines_snoc)
  with trailing_newlines_strip [OF assms, of p s] show ?thesis
    by (simp add: replace_trailing_newlines_eq)
qed

subsection \<open>The counter of an ordered list\<close>

lemma number_to_string_exact:
  "\<bar>i\<bar> \<le> 2 ^ 53 \<Longrightarrow> number_to_string i = decimal_of_int i"
  by (simp add: number_to_string_def)

lemma increment_exact:
  "\<bar>n + 1\<bar> \<le> 2 ^ 53 \<Longrightarrow> increment n = n + 1"
  by (simp add: increment_def round_to_double_def)

lemma orderedListItems_enumerate:
  assumes "- (2 ^ 53) < s + int k"
    and "s + int k + int (length (listItemContents items)) \<le> 2 ^ 53"
  shows "concat (orderedListItems items (s + int k) c) =
   concat (map (\<lambda>(i, content).
              decimal_of_int (s + int i) @ ''. '' @
              strip_trailing_newlines (fragmentToMarkdown content c) @ [newline])
           (enumerate k (listItemContents items)))"
  using assms
proof (induction items arbitrary: k)
  case Nil
  show ?case by simp
next
  case (Cons item rest)
  show ?case
  proof (cases item)
    case (ListItem content)
    from Cons.prems ListItem
    have lower: "- (2 ^ 53) < s + int (Suc k)"
      and upper: "s + int (Suc k) + int (length (listItemContents rest)) \<le> 2 ^ 53"
      by simp_all
    from Cons.prems ListItem have "\<bar>s + int k\<bar> \<le> 2 ^ 53" and "\<bar>s + int k + 1\<bar> \<le> 2 ^ 53"
      by simp_all
    then have print: "number_to_string (s + int k) = decimal_of_int (s + int k)"
      and step: "increment (s + int k) = s + int (Suc k)"
      by (simp_all add: number_to_string_exact increment_exact)
    have "concat (orderedListItems rest (s + int (Suc k)) c) =
          concat (map (\<lambda>(i, content).
              decimal_of_int (s + int i) @ ''. '' @
              strip_trailing_newlines (fragmentToMarkdown content c) @ [newline])
           (enumerate (Suc k) (listItemContents rest)))"
      using lower upper by (rule Cons.IH)
    with ListItem print step show ?thesis
      by (simp add: replace_trailing_newlines_eq)
  qed (use Cons.IH [of k] Cons.prems in simp_all)
qed

lemma orderedListItems_filter:
  "concat (orderedListItems items n c) =
   concat (orderedListItems (filter isListItem items) n c)"
proof (induction items arbitrary: n)
  case Nil
  show ?case by simp
next
  case (Cons item rest)
  show ?case by (cases item) (simp_all add: Cons)
qed

subsection \<open>Text nodes and marks\<close>

text \<open>
  C1.  A text node without a mark sequence renders as its literal text.  With a mark
  sequence it renders as the left fold of mark application over the sequence, starting
  from the literal: the empty sequence leaves the literal, and the last mark wraps the
  rendering of the marks before it (the current string, not the literal).  Bold wraps
  in \<open>**\<close>, italic in \<open>*\<close>, and a link in \<open>[\<close>, \<open>](\<close>, the href and \<open>)\<close>, where a missing
  attribute bag or a missing href gives the empty string.
\<close>

theorem text_node_is_left_fold_of_marks:
  "nodeToMarkdown (Text t None) c = t
   \<and> nodeToMarkdown (Text t (Some ms)) c =
       foldl (\<lambda>s m. applyMarkToText s m c) t ms
   \<and> nodeToMarkdown (Text t (Some [])) c = t
   \<and> nodeToMarkdown (Text t (Some (ms @ [Bold]))) c =
       ''**'' @ nodeToMarkdown (Text t (Some ms)) c @ ''**''
   \<and> nodeToMarkdown (Text t (Some (ms @ [Italic]))) c =
       ''*'' @ nodeToMarkdown (Text t (Some ms)) c @ ''*''
   \<and> nodeToMarkdown (Text t (Some (ms @ [Link (Some \<lparr>href = Some h\<rparr>)]))) c =
       ''['' @ nodeToMarkdown (Text t (Some ms)) c @ '']('' @ h @ '')''
   \<and> nodeToMarkdown (Text t (Some (ms @ [Link (Some \<lparr>href = None\<rparr>)]))) c =
       ''['' @ nodeToMarkdown (Text t (Some ms)) c @ '']('' @ '''' @ '')''
   \<and> nodeToMarkdown (Text t (Some (ms @ [Link None]))) c =
       ''['' @ nodeToMarkdown (Text t (Some ms)) c @ '']('' @ '''' @ '')''"
  by (simp add: textNodeToMarkdown_def)

text \<open>
  C7.  A link mark whose attribute bag is absent, or whose href is absent, wraps the
  current string as \<open>[\<close> current string \<open>]()\<close>: the link construct is still there, its
  destination is empty, and the result is a string (the model has no error value
  because the source has no \<^verbatim>\<open>throw\<close>; \<^verbatim>\<open>mark.attrs?.href ?? ''\<close> reads the absent
  value as the empty string).  This holds wherever the link stands in the mark sequence
  of a text node: the marks after it wrap that construct.
\<close>

theorem link_without_href_has_empty_destination:
  "applyMarkToText s (Link None) c = ''['' @ s @ '']()''
   \<and> applyMarkToText s (Link (Some \<lparr>href = None\<rparr>)) c = ''['' @ s @ '']()''
   \<and> nodeToMarkdown (Text t (Some (ms @ Link None # ms'))) c =
       foldl (\<lambda>s m. applyMarkToText s m c)
         (''['' @ nodeToMarkdown (Text t (Some ms)) c @ '']()'') ms'
   \<and> nodeToMarkdown (Text t (Some (ms @ Link (Some \<lparr>href = None\<rparr>) # ms'))) c =
       foldl (\<lambda>s m. applyMarkToText s m c)
         (''['' @ nodeToMarkdown (Text t (Some ms)) c @ '']()'') ms'
   \<and> nodeToMarkdown (Text t (Some [Link None])) c = ''['' @ t @ '']()''"
  by (simp add: textNodeToMarkdown_def)

text \<open>
  C9.  For every literal \<open>t\<close>, the mark sequences bold, italic and italic, bold both
  render as three asterisks, \<open>t\<close>, three asterisks: each mark is applied once, and the
  two folds end in the same characters.
\<close>

theorem bold_italic_in_either_order:
  "nodeToMarkdown (Text t (Some [Bold, Italic])) c = ''***'' @ t @ ''***''
   \<and> nodeToMarkdown (Text t (Some [Italic, Bold])) c = ''***'' @ t @ ''***''
   \<and> nodeToMarkdown (Text t (Some [Bold, Italic])) c =
       nodeToMarkdown (Text t (Some [Italic, Bold])) c"
  by (simp add: textNodeToMarkdown_def)

lemma applyMarkToText_wraps:
  "\<exists>pre post. \<forall>s. applyMarkToText s m c = pre @ s @ post"
proof (cases m)
  case Bold
  have "\<forall>s. applyMarkToText s Bold c = ''**'' @ s @ ''**''" by simp
  with Bold show ?thesis by blast
next
  case Italic
  have "\<forall>s. applyMarkToText s Italic c = ''*'' @ s @ ''*''" by simp
  with Italic show ?thesis by blast
next
  case (Link attrs)
  obtain h where "h = (case attrs of None \<Rightarrow> ''''
      | Some a \<Rightarrow> (case href a of None \<Rightarrow> '''' | Some h \<Rightarrow> h))" by simp
  then have "\<forall>s. applyMarkToText s (Link attrs) c = ''['' @ s @ ('']('' @ h @ '')'')" by simp
  with Link show ?thesis by blast
qed

lemma marks_wrap:
  "\<exists>pre post. \<forall>t. foldl (\<lambda>s m. applyMarkToText s m c) t ms = pre @ t @ post"
proof (induction ms rule: rev_induct)
  case Nil
  have "\<forall>t::string. foldl (\<lambda>s m. applyMarkToText s m c) t [] = [] @ t @ []" by simp
  then show ?case by blast
next
  case (snoc m ms)
  then obtain pre post where
    inner: "\<forall>t. foldl (\<lambda>s m. applyMarkToText s m c) t ms = pre @ t @ post" by blast
  obtain pre' post' where
    outer: "\<forall>s. applyMarkToText s m c = pre' @ s @ post'"
    using applyMarkToText_wraps by blast
  have "\<forall>t. foldl (\<lambda>s m. applyMarkToText s m c) t (ms @ [m]) =
            (pre' @ pre) @ t @ (post @ post')"
    by (simp add: inner outer)
  then show ?case by blast
qed

text \<open>
  C10.  For every mark sequence (absent or present) there are a fixed prefix and a fixed
  suffix, the same for every literal, such that the text node renders as prefix, literal,
  suffix: the literal is a contiguous part of the output, character for character, and
  nothing in it is escaped.  A literal made of Markdown delimiters passes through, and
  an href holding a closing parenthesis stands unchanged inside the link construct.
\<close>

theorem literal_text_is_embedded_verbatim:
  "(\<exists>pre post. \<forall>t. nodeToMarkdown (Text t marks) c = pre @ t @ post)
   \<and> nodeToMarkdown (Text ''a*_[)b'' (Some [Bold])) c = ''**a*_[)b**''
   \<and> nodeToMarkdown (Text t (Some [Link (Some \<lparr>href = Some ''u)v''\<rparr>)])) c =
       ''['' @ t @ ''](u)v)''
   \<and> applyMarkToText s (Link (Some \<lparr>href = Some h\<rparr>)) c = ''['' @ s @ '']('' @ h @ '')''"
proof -
  have "\<exists>pre post. \<forall>t. nodeToMarkdown (Text t marks) c = pre @ t @ post"
  proof (cases marks)
    case None
    have "\<forall>t. nodeToMarkdown (Text t None) c = [] @ t @ []"
      by (simp add: textNodeToMarkdown_def)
    with None show ?thesis by blast
  next
    case (Some ms)
    with marks_wrap [of c ms] show ?thesis
      by (simp add: textNodeToMarkdown_def)
  qed
  then show ?thesis by (simp add: textNodeToMarkdown_def)
qed

subsection \<open>List items and lists\<close>

text \<open>
  C2.  A listItem node renders as the marker \<open>- \<close>, then the rendering of its Fragment
  (the concatenation of the dispatch over its entries, empty when the Fragment is
  absent) without any of its trailing newline characters, then one newline.  As an
  entry of an ordered list the same line carries the marker \<open>n. \<close> instead.  A listItem
  holding the paragraph "Outer item" and a nested bullet list with the one item
  "Nested item" renders as \<open>- Outer item\<close>, a blank line, \<open>- Nested item\<close> and a newline.
\<close>

theorem list_item_is_one_list_line:
  "nodeToMarkdown (ListItem content) c =
     ''- '' @ strip_trailing_newlines (fragmentToMarkdown content c) @ [newline]
   \<and> fragmentToMarkdown None c = ''''
   \<and> fragmentToMarkdown (Some nodes) c = concat (map (\<lambda>node. nodeToMarkdown node c) nodes)
   \<and> orderedListItems [ListItem content] n c =
       [number_to_string n @ ''. '' @
        strip_trailing_newlines (fragmentToMarkdown content c) @ [newline]]
   \<and> nodeToMarkdown
        (ListItem (Some
          [Paragraph (Some [Text ''Outer item'' None]),
           BulletList (Some [ListItem (Some [Paragraph (Some [Text ''Nested item'' None])])])]))
        c
       = ''- Outer item'' @ [newline, newline] @ ''- Nested item'' @ [newline]"
  by (simp add: replace_trailing_newlines_eq [symmetric] textNodeToMarkdown_def)

lemma bit_length_above_2_53: "bit_length 9007199254740993 = 54"
  by simp

lemma increment_below_2_53: "increment 9007199254740991 = 9007199254740992"
  by (simp add: increment_exact)

lemma increment_at_2_53: "increment 9007199254740992 = 9007199254740992"
  by (simp add: increment_def round_to_double_def Let_def bit_length_above_2_53
      del: bit_length.simps)

text \<open>
  C3, as stated, fails: the counter is a double.  With \<open>start = 2^53 - 1\<close> and three
  items the ordinals are 9007199254740991, 9007199254740992 and 9007199254740992 again,
  because \<open>2^53 + 1\<close> is not a double; the third is not \<open>start + 2\<close>.
\<close>

theorem ordered_list_counter_stops_counterexample:
  "nodeToMarkdown
     (OrderedList (Some \<lparr>start = Some 9007199254740991\<rparr>)
       (Some [ListItem (Some [Paragraph (Some [Text ''Item'' None])]),
              ListItem (Some [Paragraph (Some [Text ''Item'' None])]),
              ListItem (Some [Paragraph (Some [Text ''Item'' None])])]))
     (None :: unit option)
   = ''9007199254740991. Item'' @ [newline] @ ''9007199254740992. Item'' @ [newline] @
     ''9007199254740992. Item'' @ [newline]
   \<and> nodeToMarkdown
     (OrderedList (Some \<lparr>start = Some 9007199254740991\<rparr>)
       (Some [ListItem (Some [Paragraph (Some [Text ''Item'' None])]),
              ListItem (Some [Paragraph (Some [Text ''Item'' None])]),
              ListItem (Some [Paragraph (Some [Text ''Item'' None])])]))
     (None :: unit option)
   \<noteq> concat (map (\<lambda>(i, content).
                decimal_of_int (9007199254740991 + int i) @ ''. '' @
                strip_trailing_newlines (fragmentToMarkdown content (None :: unit option)) @
                [newline])
             (enumerate 0 (listItemContents
               [ListItem (Some [Paragraph (Some [Text ''Item'' None])]),
                ListItem (Some [Paragraph (Some [Text ''Item'' None])]),
                ListItem (Some [Paragraph (Some [Text ''Item'' None])])])))"
  by (simp add: textNodeToMarkdown_def number_to_string_exact decimal_of_int_def
      digit_char_def increment_below_2_53 increment_at_2_53 strip_trailing_newlines_def)

text \<open>
  C3, amended.  An ordered list whose content is present and whose ordinals all are safe
  integers (\<open>start\<close> above \<open>- 2^53\<close>, and \<open>start\<close> plus the number of listItem entries at
  most \<open>2^53\<close>) renders as the concatenation, over the listItem entries of the content in
  document order, of one line per entry: the \<open>i\<close>-th such entry (from 0) gets the decimal
  numeral of \<open>start + i\<close>, then \<open>. \<close>, then its trimmed content and a newline.  The
  ordinal depends on the position alone.  \<open>start\<close> is \<^verbatim>\<open>attrs.start\<close> when the attribute
  bag and the field are present and 1 otherwise, and it is used as it is.  Two items
  "Item" with \<open>start = 5\<close> render as \<open>5. Item\<close> and \<open>6. Item\<close>, each with its newline.
\<close>

theorem ordered_list_numbers_items_from_start:
  "(- (2 ^ 53) < startNumberOf attrs
      \<and> startNumberOf attrs + int (length (listItemContents items)) \<le> 2 ^ 53
    \<longrightarrow> nodeToMarkdown (OrderedList attrs (Some items)) c =
         concat (map (\<lambda>(i, content).
                    decimal_of_int (startNumberOf attrs + int i) @ ''. '' @
                    strip_trailing_newlines (fragmentToMarkdown content c) @ [newline])
                 (enumerate 0 (listItemContents items))))
   \<and> startNumberOf None = 1
   \<and> startNumberOf (Some \<lparr>start = None\<rparr>) = 1
   \<and> startNumberOf (Some \<lparr>start = Some k\<rparr>) = k
   \<and> nodeToMarkdown
        (OrderedList (Some \<lparr>start = Some 5\<rparr>)
          (Some [ListItem (Some [Paragraph (Some [Text ''Item'' None])]),
                 ListItem (Some [Paragraph (Some [Text ''Item'' None])])]))
        c
       = ''5. Item'' @ [newline] @ ''6. Item'' @ [newline]"
proof -
  have general: "nodeToMarkdown (OrderedList attrs (Some items)) c =
     concat (map (\<lambda>(i, content).
                decimal_of_int (startNumberOf attrs + int i) @ ''. '' @
                strip_trailing_newlines (fragmentToMarkdown content c) @ [newline])
             (enumerate 0 (listItemContents items)))"
    if lower: "- (2 ^ 53) < startNumberOf attrs"
      and upper: "startNumberOf attrs + int (length (listItemContents items)) \<le> 2 ^ 53"
  proof -
    have "nodeToMarkdown (OrderedList attrs (Some items)) c =
          concat (orderedListItems items (startNumberOf attrs + int 0) c)"
      by (simp add: startNumberOf_def)
    also have "\<dots> = concat (map (\<lambda>(i, content).
                decimal_of_int (startNumberOf attrs + int i) @ ''. '' @
                strip_trailing_newlines (fragmentToMarkdown content c) @ [newline])
             (enumerate 0 (listItemContents items)))"
      by (rule orderedListItems_enumerate) (use lower upper in simp_all)
    finally show ?thesis .
  qed
  have example: "nodeToMarkdown
        (OrderedList (Some \<lparr>start = Some 5\<rparr>)
          (Some [ListItem (Some [Paragraph (Some [Text ''Item'' None])]),
                 ListItem (Some [Paragraph (Some [Text ''Item'' None])])]))
        c
       = ''5. Item'' @ [newline] @ ''6. Item'' @ [newline]"
    by (simp add: textNodeToMarkdown_def number_to_string_exact increment_exact
        decimal_of_int_def digit_char_def)
  have absent_bag: "startNumberOf None = 1"
    and absent_field: "startNumberOf (Some \<lparr>start = None\<rparr>) = 1"
    and present: "startNumberOf (Some \<lparr>start = Some k\<rparr>) = k"
    by (simp_all add: startNumberOf_def)
  from general example absent_bag absent_field present show ?thesis
    by blast
qed

theorem ordered_list_numbers_items_from_start_witness:
  "- (2 ^ 53) < startNumberOf (Some \<lparr>start = Some (- 1)\<rparr>)
   \<and> startNumberOf (Some \<lparr>start = Some (- 1)\<rparr>) +
       int (length (listItemContents
         [Paragraph None, ListItem (Some [Text ''a'' None]),
          ListItem (Some [Text ''b'' None]), ListItem (Some [Text ''c'' None])]))
       \<le> 2 ^ 53
   \<and> nodeToMarkdown
       (OrderedList (Some \<lparr>start = Some (- 1)\<rparr>)
         (Some [Paragraph None, ListItem (Some [Text ''a'' None]),
                ListItem (Some [Text ''b'' None]), ListItem (Some [Text ''c'' None])]))
       (None :: unit option)
     = ''-1. a'' @ [newline] @ ''0. b'' @ [newline] @ ''1. c'' @ [newline]"
proof -
  have lower: "- (2 ^ 53) < startNumberOf (Some \<lparr>start = Some (- 1)\<rparr>)"
    by (simp add: startNumberOf_def)
  have upper: "startNumberOf (Some \<lparr>start = Some (- 1)\<rparr>) +
       int (length (listItemContents
         [Paragraph None, ListItem (Some [Text ''a'' None]),
          ListItem (Some [Text ''b'' None]), ListItem (Some [Text ''c'' None])]))
       \<le> 2 ^ 53"
    by (simp add: startNumberOf_def)
  from ordered_list_numbers_items_from_start
         [of "Some \<lparr>start = Some (- 1)\<rparr>"
             "[Paragraph None, ListItem (Some [Text ''a'' None]),
               ListItem (Some [Text ''b'' None]), ListItem (Some [Text ''c'' None])]"
             "None :: unit option"]
       lower upper
  have "nodeToMarkdown
       (OrderedList (Some \<lparr>start = Some (- 1)\<rparr>)
         (Some [Paragraph None, ListItem (Some [Text ''a'' None]),
                ListItem (Some [Text ''b'' None]), ListItem (Some [Text ''c'' None])]))
       (None :: unit option)
     = concat (map (\<lambda>(i, content).
                decimal_of_int (startNumberOf (Some \<lparr>start = Some (- 1)\<rparr>) + int i) @ ''. '' @
                strip_trailing_newlines (fragmentToMarkdown content (None :: unit option)) @
                [newline])
             (enumerate 0 (listItemContents
               [Paragraph None, ListItem (Some [Text ''a'' None]),
                ListItem (Some [Text ''b'' None]), ListItem (Some [Text ''c'' None])])))"
    by blast
  also have "\<dots> = ''-1. a'' @ [newline] @ ''0. b'' @ [newline] @ ''1. c'' @ [newline]"
    by (simp add: startNumberOf_def decimal_of_int_def digit_char_def
        strip_trailing_newlines_def textNodeToMarkdown_def)
  finally show ?thesis using lower upper by blast
qed

text \<open>
  C4.  A doc, a bulletList and an orderedList (with any attributes) render as the empty
  string when their Fragment is absent and when it is empty; a paragraph renders as one
  newline in both cases.
\<close>

theorem absent_and_empty_fragments:
  "nodeToMarkdown (Doc None) c = ''''
   \<and> nodeToMarkdown (Doc (Some [])) c = ''''
   \<and> nodeToMarkdown (BulletList None) c = ''''
   \<and> nodeToMarkdown (BulletList (Some [])) c = ''''
   \<and> nodeToMarkdown (OrderedList attrs None) c = ''''
   \<and> nodeToMarkdown (OrderedList attrs (Some [])) c = ''''
   \<and> nodeToMarkdown (Paragraph None) c = [newline]
   \<and> nodeToMarkdown (Paragraph (Some [])) c = [newline]"
  by simp

lemma ordered_lines:
  "list_all2 (\<lambda>item line. if isListItem item then trailing_newlines line = 1 else line = '''')
     items (orderedListItems items n c)"
proof (induction items arbitrary: n)
  case Nil
  show ?case by simp
next
  case (Cons item rest)
  show ?case
  proof (cases item)
    case (ListItem content)
    have "trailing_newlines
            ((number_to_string n @ ''.'') @ [CHR '' ''] @
             replace_trailing_newlines (fragmentToMarkdown content c) @ [newline]) = 1"
      by (rule trailing_newlines_line) simp
    with ListItem Cons [of "increment n"] show ?thesis by simp
  qed (use Cons [of n] in simp_all)
qed

text \<open>
  C5.  The rendering of a listItem node ends with a run of exactly one newline
  character, whatever its content rendered to.  In the lines an ordered list emits, one
  per entry of its content, the line of every listItem entry ends with a run of exactly
  one newline as well (the line of any other entry is empty).
\<close>

theorem list_item_ends_with_one_newline:
  "trailing_newlines (nodeToMarkdown (ListItem content) c) = 1
   \<and> list_all2
       (\<lambda>item line. if isListItem item then trailing_newlines line = 1 else line = '''')
       items (orderedListItems items n c)"
proof -
  have "trailing_newlines
          (''-'' @ [CHR '' ''] @
           replace_trailing_newlines (fragmentToMarkdown content c) @ [newline]) = 1"
    by (rule trailing_newlines_line) simp
  then show ?thesis by (simp add: ordered_lines)
qed

lemma ordered_list_skips_other_entries:
  "nodeToMarkdown (OrderedList attrs (Some items)) c =
     nodeToMarkdown (OrderedList attrs (Some (filter isListItem items))) c
   \<and> orderedListItems (BulletList f # rest) n c = '''' # orderedListItems rest n c
   \<and> orderedListItems (Doc f # rest) n c = '''' # orderedListItems rest n c
   \<and> orderedListItems (OrderedList a f # rest) n c = '''' # orderedListItems rest n c
   \<and> orderedListItems (Paragraph f # rest) n c = '''' # orderedListItems rest n c
   \<and> orderedListItems (Text t ms # rest) n c = '''' # orderedListItems rest n c"
  using orderedListItems_filter [of items _ c] by simp

text \<open>
  C6.  In the content of a list, an entry that is not a listItem node is to contribute the
  empty string.  The ordered list does so (\<open>ordered_list_skips_other_entries\<close>): its
  callback tests \<^verbatim>\<open>item.type === 'listItem'\<close> and returns \<^verbatim>\<open>''\<close> otherwise.  The bullet
  list does not: \<^verbatim>\<open>bulletListNodeToMarkdown\<close> hands its content to
  \<^verbatim>\<open>fragmentToMarkdown\<close>, which renders every entry.  On the content made of the
  paragraph "x" and the item "a", the bullet list renders \<open>x\<close>, a blank line and \<open>- a\<close>,
  where the same list without the paragraph renders \<open>- a\<close> alone; the ordered list
  renders \<open>1. a\<close> for both.
\<close>

theorem bullet_list_keeps_non_list_item_entry:
  "nodeToMarkdown
     (BulletList (Some [Paragraph (Some [Text ''x'' None]), ListItem (Some [Text ''a'' None])]))
     (None :: unit option)
   = ''x'' @ [newline, newline] @ ''- a'' @ [newline]
   \<and> nodeToMarkdown (BulletList (Some [ListItem (Some [Text ''a'' None])])) (None :: unit option)
   = ''- a'' @ [newline]
   \<and> nodeToMarkdown
     (OrderedList None
       (Some [Paragraph (Some [Text ''x'' None]), ListItem (Some [Text ''a'' None])]))
     (None :: unit option)
   = ''1. a'' @ [newline]
   \<and> nodeToMarkdown (OrderedList None (Some [ListItem (Some [Text ''a'' None])]))
     (None :: unit option)
   = ''1. a'' @ [newline]"
  by (simp add: textNodeToMarkdown_def number_to_string_exact decimal_of_int_def digit_char_def)

subsection \<open>The context\<close>

lemma applyMarkToText_context: "applyMarkToText s m c = applyMarkToText s m c'"
  by (cases m) simp_all

lemma textNodeToMarkdown_context:
  "textNodeToMarkdown t marks c = textNodeToMarkdown t marks c'"
proof (cases marks)
  case None
  then show ?thesis by (simp add: textNodeToMarkdown_def)
next
  case (Some ms)
  have "foldl (\<lambda>s m. applyMarkToText s m c) t ms = foldl (\<lambda>s m. applyMarkToText s m c') t ms"
    by (induction ms arbitrary: t) (simp_all add: applyMarkToText_context [of _ _ c c'])
  with Some show ?thesis by (simp add: textNodeToMarkdown_def)
qed

lemma rendering_ignores_context:
  fixes c' :: "'ctx option"
  shows "nodeToMarkdown n (c :: 'ctx option) = nodeToMarkdown n c'"
    and "bulletListNodeToMarkdown f1 c = bulletListNodeToMarkdown f1 c'"
    and "docNodeToMarkdown f2 c = docNodeToMarkdown f2 c'"
    and "listItemNodeToMarkdown f3 c = listItemNodeToMarkdown f3 c'"
    and "orderedListNodeToMarkdown a f4 c = orderedListNodeToMarkdown a f4 c'"
    and "orderedListItems items k c = orderedListItems items k c'"
    and "paragraphNodeToMarkdown f5 c = paragraphNodeToMarkdown f5 c'"
    and "fragmentToMarkdown f6 c = fragmentToMarkdown f6 c'"
proof (induction n c and f1 c and f2 c and f3 c and a f4 c and items k c and f5 c and f6 c
    rule: nodeToMarkdown_bulletListNodeToMarkdown_docNodeToMarkdown_listItemNodeToMarkdown_orderedListNodeToMarkdown_orderedListItems_paragraphNodeToMarkdown_fragmentToMarkdown.induct)
  case (6 t marks c)
  show ?case using textNodeToMarkdown_context [of t marks c c'] by simp
next
  case (10 attrs content c)
  then show ?case by (cases content) simp_all
next
  case (12 item rest k c)
  then show ?case by (cases item) simp_all
next
  case (13 content c)
  then show ?case by (cases content) simp_all
next
  case (15 nodes c)
  then show ?case by (simp cong: map_cong)
qed simp_all

text \<open>
  C8.  \<^verbatim>\<open>generate\<close> returns the same string for a node whatever the context is, absent
  or present: the output is a function of the node tree alone.
\<close>

theorem generate_is_context_independent:
  "generate node (c1 :: 'ctx option) = generate node (c2 :: 'ctx option)"
  unfolding generate_def by (rule rendering_ignores_context(1))

end
